theory Spec2Isabelle
  imports Complex_Main
begin

section \<open>The swipe hook: deck state, navigation and drag handling\<close>

text \<open>
  The hook \<open>useSwipe\<close> keeps three pieces of React state (\<open>currentIndex\<close>,
  \<open>direction\<close>, \<open>dragStart\<close>), calls the optional callback \<open>onSwipe\<close>, and
  changes the inline style of the dragged card inside \<open>requestAnimationFrame\<close>
  callbacks. The model passes all of that explicitly: the React state, the trace of
  \<open>onSwipe\<close> calls, the inline styles of the card and the queue of scheduled frame
  callbacks are the fields of one record, and every handler maps a world to a world.
  Indices are JavaScript numbers holding integers (array indices and a length), modelled
  as \<open>int\<close>; pointer coordinates, offsets and velocities are modelled as \<open>real\<close>.
  Every handler runs on the state the previous one left: the component renders again
  between two events, so the values a handler closes over are the current ones. A frame
  callback runs later and keeps the values of the render in which it was scheduled.
\<close>

subsection \<open>Data\<close>

text \<open>The three inline style properties the handlers write.\<close>

record style =
  overflowY :: string
  touchAction :: string
  pointerEvents :: string

text \<open>
  What the handlers reach from \<open>event.currentTarget\<close>: the card root, the element
  \<open>.story-card-body\<close> if \<open>querySelector\<close> finds one, and the elements
  \<open>querySelectorAll("a, button, input, select, textarea")\<close> returns.
\<close>

record card_dom =
  rootStyle :: style
  bodyStyle :: "style option"
  interactiveStyles :: "style list"

text \<open>
  The callbacks handed to \<open>requestAnimationFrame\<close>: the one of \<open>handleDrag\<close>, the
  first one of \<open>handleDragEnd\<close> (with its captured \<open>target\<close>, present or not) and the
  second one of \<open>handleDragEnd\<close> (with the captured \<open>info.offset.x\<close> and
  \<open>info.velocity.x\<close>, and the index of the render whose \<open>goToPrevious\<close> and
  \<open>goToNext\<close> it calls).
\<close>

datatype frame_callback =
  LockStyles
| RestoreStyles bool
| SwipeNavigate real real int

text \<open>
  The options of the hook: the number of cards, and whether the caller supplied the
  optional callback \<open>onSwipe\<close>.
\<close>

record UseSwipeOptions =
  totalCards :: int
  onSwipe :: bool

text \<open>
  The world of the hook: its React state, the arguments of the calls of \<open>onSwipe\<close>
  made so far (oldest first), the card, and the frame callbacks scheduled and not yet
  run (oldest first).
\<close>

record world =
  currentIndex :: int
  direction :: int
  dragStart :: "(real \<times> real) option"
  onSwipeCalls :: "int list"
  cardEl :: card_dom
  rafQueue :: "frame_callback list"

text \<open>The fields of framer-motion's \<open>PanInfo\<close> that the handlers read.\<close>

record PanInfo =
  point_x :: real
  point_y :: real
  offset_x :: real
  offset_y :: real
  velocity_x :: real

text \<open>The state of the first render: \<open>useState(0)\<close>, \<open>useState(0)\<close>, \<open>useState(null)\<close>.\<close>

definition useSwipeInit :: "card_dom \<Rightarrow> world" where
  "useSwipeInit d =
     \<lparr>currentIndex = 0, direction = 0, dragStart = None, onSwipeCalls = [],
      cardEl = d, rafQueue = []\<rparr>"

subsection \<open>Navigation\<close>

text \<open>\<open>onSwipe?.(d)\<close>: the call happens only when the caller supplied the callback.\<close>

definition callOnSwipe :: "UseSwipeOptions \<Rightarrow> int \<Rightarrow> world \<Rightarrow> world" where
  "callOnSwipe opts d w =
     (if onSwipe opts then w\<lparr>onSwipeCalls := onSwipeCalls w @ [d]\<rparr> else w)"

definition goToNext :: "UseSwipeOptions \<Rightarrow> world \<Rightarrow> world" where
  "goToNext opts w =
     (if currentIndex w < totalCards opts - 1
      then callOnSwipe opts 1 (w\<lparr>direction := 1, currentIndex := currentIndex w + 1\<rparr>)
      else w)"

definition goToPrevious :: "UseSwipeOptions \<Rightarrow> world \<Rightarrow> world" where
  "goToPrevious opts w =
     (if currentIndex w > 0
      then callOnSwipe opts (- 1) (w\<lparr>direction := - 1, currentIndex := currentIndex w - 1\<rparr>)
      else w)"

definition goToIndex :: "UseSwipeOptions \<Rightarrow> int \<Rightarrow> world \<Rightarrow> world" where
  "goToIndex opts index w =
     (if index \<ge> 0 \<and> index < totalCards opts
      then callOnSwipe opts (if index > currentIndex w then 1 else - 1)
             (w\<lparr>direction := (if index > currentIndex w then 1 else - 1),
                currentIndex := index\<rparr>)
      else w)"

text \<open>A call of one of the three navigation functions, and a sequence of such calls.\<close>

datatype nav_call = GoToNext | GoToPrevious | GoToIndex int

fun callNav :: "UseSwipeOptions \<Rightarrow> nav_call \<Rightarrow> world \<Rightarrow> world" where
  "callNav opts GoToNext w = goToNext opts w"
| "callNav opts GoToPrevious w = goToPrevious opts w"
| "callNav opts (GoToIndex k) w = goToIndex opts k w"

fun callNavs :: "UseSwipeOptions \<Rightarrow> nav_call list \<Rightarrow> world \<Rightarrow> world" where
  "callNavs opts [] w = w"
| "callNavs opts (c # cs) w = callNavs opts cs (callNav opts c w)"

subsection \<open>Drag handling\<close>

text \<open>\<open>handleDragStart\<close>: \<open>setDragStart({ x: info.point.x, y: info.point.y })\<close>.\<close>

definition handleDragStart :: "PanInfo \<Rightarrow> world \<Rightarrow> world" where
  "handleDragStart info w = w\<lparr>dragStart := Some (point_x info, point_y info)\<rparr>"

text \<open>
  \<open>handleDrag\<close>: the argument \<open>target\<close> says whether \<open>event.currentTarget\<close> is
  present. The handler returns at once without a target or without a drag start;
  otherwise it schedules the locking callback when the horizontal movement dominates.
\<close>

definition handleDrag :: "bool \<Rightarrow> PanInfo \<Rightarrow> world \<Rightarrow> world" where
  "handleDrag target info w =
     (if \<not> target then w
      else case dragStart w of
        None \<Rightarrow> w
      | Some (sx, sy) \<Rightarrow>
          (let deltaY = \<bar>point_y info - sy\<bar>;
               deltaX = \<bar>point_x info - sx\<bar>
           in if deltaX > 10 \<and> deltaX > deltaY * 1.2
              then w\<lparr>rafQueue := rafQueue w @ [LockStyles]\<rparr>
              else w))"

text \<open>The body of the frame callback of \<open>handleDrag\<close>.\<close>

definition lockStyles :: "card_dom \<Rightarrow> card_dom" where
  "lockStyles d =
     d\<lparr>rootStyle := (rootStyle d)\<lparr>overflowY := ''hidden'', touchAction := ''pan-x''\<rparr>,
       bodyStyle :=
         map_option
           (\<lambda>b. b\<lparr>overflowY := ''hidden'', touchAction := ''pan-x'', pointerEvents := ''none''\<rparr>)
           (bodyStyle d),
       interactiveStyles :=
         map (\<lambda>el. el\<lparr>pointerEvents := ''none''\<rparr>) (interactiveStyles d)\<rparr>"

text \<open>The body of the first frame callback of \<open>handleDragEnd\<close>, inside \<open>if (target)\<close>.\<close>

definition restoreStyles :: "card_dom \<Rightarrow> card_dom" where
  "restoreStyles d =
     d\<lparr>rootStyle := (rootStyle d)\<lparr>overflowY := ''auto'', touchAction := ''''\<rparr>,
       bodyStyle :=
         map_option
           (\<lambda>b. b\<lparr>overflowY := ''auto'', touchAction := '''', pointerEvents := ''''\<rparr>)
           (bodyStyle d),
       interactiveStyles :=
         map (\<lambda>el. el\<lparr>pointerEvents := ''''\<rparr>) (interactiveStyles d)\<rparr>"

text \<open>
  \<open>handleDragEnd\<close>: schedules the restoring callback, then the navigating callback when
  the release is a swipe, then clears the drag start.
\<close>

definition handleDragEnd :: "bool \<Rightarrow> PanInfo \<Rightarrow> world \<Rightarrow> world" where
  "handleDragEnd target info w =
     (let swipeThreshold = 80;
          swipeVelocity = 250;
          verticalThreshold = 60;
          horizontalMovement = \<bar>offset_x info\<bar>;
          verticalMovement = \<bar>offset_y info\<bar>;
          isHorizontalSwipe = horizontalMovement > verticalMovement * 1.5;
          w1 = w\<lparr>rafQueue := rafQueue w @ [RestoreStyles target]\<rparr>;
          w2 = (if isHorizontalSwipe \<and>
                   (horizontalMovement > swipeThreshold \<or> \<bar>velocity_x info\<bar> > swipeVelocity) \<and>
                   verticalMovement < verticalThreshold
                then w1\<lparr>rafQueue :=
                         rafQueue w1 @
                           [SwipeNavigate (offset_x info) (velocity_x info) (currentIndex w)]\<rparr>
                else w1)
      in w2\<lparr>dragStart := None\<rparr>)"

text \<open>
  The second frame callback of \<open>handleDragEnd\<close> calls the \<open>goToPrevious\<close> and
  \<open>goToNext\<close> of the render in which the drag ended (the dependencies of
  \<open>handleDragEnd\<close>): when the frame comes they still compare and step the index \<open>c\<close>
  of that render, whatever the index has become since.
\<close>

definition goToNextOf :: "UseSwipeOptions \<Rightarrow> int \<Rightarrow> world \<Rightarrow> world" where
  "goToNextOf opts c w =
     (if c < totalCards opts - 1
      then callOnSwipe opts 1 (w\<lparr>direction := 1, currentIndex := c + 1\<rparr>)
      else w)"

definition goToPreviousOf :: "UseSwipeOptions \<Rightarrow> int \<Rightarrow> world \<Rightarrow> world" where
  "goToPreviousOf opts c w =
     (if c > 0
      then callOnSwipe opts (- 1) (w\<lparr>direction := - 1, currentIndex := c - 1\<rparr>)
      else w)"

text \<open>Running one scheduled callback.\<close>

fun runCallback :: "UseSwipeOptions \<Rightarrow> frame_callback \<Rightarrow> world \<Rightarrow> world" where
  "runCallback opts LockStyles w = w\<lparr>cardEl := lockStyles (cardEl w)\<rparr>"
| "runCallback opts (RestoreStyles target) w =
     (if target then w\<lparr>cardEl := restoreStyles (cardEl w)\<rparr> else w)"
| "runCallback opts (SwipeNavigate ox vx c) w =
     (if ox > 0 \<or> vx > 0 then goToPreviousOf opts c w else goToNextOf opts c w)"

fun runCallbacks :: "UseSwipeOptions \<Rightarrow> frame_callback list \<Rightarrow> world \<Rightarrow> world" where
  "runCallbacks opts [] w = w"
| "runCallbacks opts (cb # cbs) w = runCallbacks opts cbs (runCallback opts cb w)"

text \<open>
  An animation frame: the browser runs the callbacks scheduled so far, in the order in
  which they were scheduled, and the queue is empty afterwards (no callback of the hook
  schedules another one).
\<close>

definition runFrame :: "UseSwipeOptions \<Rightarrow> world \<Rightarrow> world" where
  "runFrame opts w = runCallbacks opts (rafQueue w) (w\<lparr>rafQueue := []\<rparr>)"

text \<open>What can happen to the hook, and a sequence of such events.\<close>

datatype swipe_event =
  DragStartEv PanInfo
| DragEv bool PanInfo
| DragEndEv bool PanInfo
| FrameEv
| NavEv nav_call

fun swipeStep :: "UseSwipeOptions \<Rightarrow> swipe_event \<Rightarrow> world \<Rightarrow> world" where
  "swipeStep opts (DragStartEv info) w = handleDragStart info w"
| "swipeStep opts (DragEv target info) w = handleDrag target info w"
| "swipeStep opts (DragEndEv target info) w = handleDragEnd target info w"
| "swipeStep opts FrameEv w = runFrame opts w"
| "swipeStep opts (NavEv c) w = callNav opts c w"

fun swipeRun :: "UseSwipeOptions \<Rightarrow> swipe_event list \<Rightarrow> world \<Rightarrow> world" where
  "swipeRun opts [] w = w"
| "swipeRun opts (e # es) w = swipeRun opts es (swipeStep opts e w)"

fun isDragStart :: "swipe_event \<Rightarrow> bool" where
  "isDragStart (DragStartEv info) = True"
| "isDragStart e = False"

text \<open>
  The styles the restoring callback writes: no lock is left on a card whose root, body
  and interactive elements carry them.
\<close>

definition unlocked :: "card_dom \<Rightarrow> bool" where
  "unlocked d =
     (overflowY (rootStyle d) = ''auto'' \<and> touchAction (rootStyle d) = '''' \<and>
      (case bodyStyle d of
         None \<Rightarrow> True
       | Some b \<Rightarrow> overflowY b = ''auto'' \<and> touchAction b = '''' \<and> pointerEvents b = '''') \<and>
      list_all (\<lambda>el. pointerEvents el = '''') (interactiveStyles d))"

text \<open>A card at rest, used in the examples: a body and two interactive elements.\<close>

definition restStyle :: style where
  "restStyle = \<lparr>overflowY = ''auto'', touchAction = '''', pointerEvents = ''''\<rparr>"

definition restCard :: card_dom where
  "restCard =
     \<lparr>rootStyle = restStyle, bodyStyle = Some restStyle,
      interactiveStyles = [restStyle, restStyle]\<rparr>"

text \<open>The card at rest of the examples with the lock on it.\<close>

definition lockedCard :: card_dom where
  "lockedCard =
     \<lparr>rootStyle = \<lparr>overflowY = ''hidden'', touchAction = ''pan-x'', pointerEvents = ''''\<rparr>,
      bodyStyle = Some \<lparr>overflowY = ''hidden'', touchAction = ''pan-x'', pointerEvents = ''none''\<rparr>,
      interactiveStyles =
        [\<lparr>overflowY = ''auto'', touchAction = '''', pointerEvents = ''none''\<rparr>,
         \<lparr>overflowY = ''auto'', touchAction = '''', pointerEvents = ''none''\<rparr>]\<rparr>"

text \<open>
  The card as \<open>StoryCard\<close> renders it: the root carries the inline style
  \<open>overflow: "hidden"\<close>, the body carries no inline style.
\<close>

definition storyCard :: card_dom where
  "storyCard =
     \<lparr>rootStyle = \<lparr>overflowY = ''hidden'', touchAction = '''', pointerEvents = ''''\<rparr>,
      bodyStyle = Some \<lparr>overflowY = '''', touchAction = '''', pointerEvents = ''''\<rparr>,
      interactiveStyles = []\<rparr>"

section \<open>The hot zones: tap, swipe and click on a navigation area\<close>

text \<open>
  \<open>NavArea\<close> keeps two refs (\<open>touchStartRef\<close>, \<open>touchHandledRef\<close>) and one piece of
  state (\<open>isActive\<close>). The model adds the pending \<open>setTimeout\<close> callbacks (their due
  times, in milliseconds) and the trace of what the handlers did to the outside: calls of
  the bound action \<open>onClick\<close>, of \<open>preventDefault\<close> and of \<open>stopPropagation\<close>.
  \<open>Date.now()\<close> is an argument of the handlers that read it.
\<close>

datatype nav_effect = OnClick | PreventDefault | StopPropagation

record nav_area =
  touchStartRef :: "(real \<times> real \<times> int) option"
  touchHandledRef :: bool
  isActive :: bool
  timeouts :: "int list"
  effects :: "nav_effect list"

definition navAreaInit :: nav_area where
  "navAreaInit =
     \<lparr>touchStartRef = None, touchHandledRef = False, isActive = False,
      timeouts = [], effects = []\<rparr>"

definition handleTouchStart :: "bool \<Rightarrow> real \<times> real \<Rightarrow> int \<Rightarrow> nav_area \<Rightarrow> nav_area" where
  "handleTouchStart disabled touch now s =
     (if disabled then s
      else s\<lparr>touchHandledRef := False,
             touchStartRef := Some (fst touch, snd touch, now),
             isActive := True\<rparr>)"

definition handleTouchMove :: "real \<times> real \<Rightarrow> nav_area \<Rightarrow> nav_area" where
  "handleTouchMove touch s =
     (case touchStartRef s of
        None \<Rightarrow> s
      | Some (sx, sy, st) \<Rightarrow>
          (let deltaX = \<bar>fst touch - sx\<bar>;
               deltaY = \<bar>snd touch - sy\<bar>
           in if deltaY > 5 \<and> deltaY > deltaX * 0.5
              then s\<lparr>isActive := False, touchStartRef := None\<rparr>
              else if deltaX > 5 \<and> deltaX > deltaY * 2
              then s\<lparr>effects := effects s @ [PreventDefault]\<rparr>
              else s))"

definition handleTouchEnd :: "bool \<Rightarrow> real \<times> real \<Rightarrow> int \<Rightarrow> nav_area \<Rightarrow> nav_area" where
  "handleTouchEnd disabled touch now s =
     (case touchStartRef s of
        None \<Rightarrow> s\<lparr>isActive := False\<rparr>
      | Some (sx, sy, st) \<Rightarrow>
          if disabled then s\<lparr>isActive := False\<rparr>
          else
            (let deltaX = \<bar>fst touch - sx\<bar>;
                 deltaY = \<bar>snd touch - sy\<bar>;
                 deltaTime = now - st;
                 s1 = (if deltaX < 10 \<and> deltaY < 10 \<and> deltaTime < 300
                       then s\<lparr>touchHandledRef := True,
                              effects := effects s @ [OnClick, PreventDefault]\<rparr>
                       else if deltaX > deltaY \<and> deltaX > 20 \<and> deltaTime < 500
                       then s\<lparr>touchHandledRef := True,
                              effects := effects s @ [OnClick, PreventDefault]\<rparr>
                       else s)
             in s1\<lparr>isActive := False, touchStartRef := None,
                   timeouts := timeouts s1 @ [now + 300]\<rparr>))"

definition handleClick :: "bool \<Rightarrow> nav_area \<Rightarrow> nav_area" where
  "handleClick disabled s =
     (if disabled then s
      else if touchHandledRef s
      then s\<lparr>effects := effects s @ [PreventDefault, StopPropagation]\<rparr>
      else s\<lparr>effects := effects s @ [PreventDefault, OnClick]\<rparr>)"

text \<open>
  The timer callbacks that are due at time \<open>now\<close> run (each one is
  \<open>touchHandledRef.current = false\<close>) and leave the list of pending ones.
\<close>

definition runTimeouts :: "int \<Rightarrow> nav_area \<Rightarrow> nav_area" where
  "runTimeouts now s =
     (if list_ex (\<lambda>due. due \<le> now) (timeouts s)
      then s\<lparr>touchHandledRef := False,
             timeouts := filter (\<lambda>due. now < due) (timeouts s)\<rparr>
      else s)"

text \<open>
  The events of a hot zone, each with the value of the prop \<open>disabled\<close> at that moment
  where the handler reads it. An event that happens at time \<open>now\<close> finds the due timer
  callbacks done.
\<close>

datatype nav_event =
  TouchStart bool "real \<times> real"
| TouchMove "real \<times> real"
| TouchEnd bool "real \<times> real"
| Click bool

fun navHandle :: "nav_event \<Rightarrow> int \<Rightarrow> nav_area \<Rightarrow> nav_area" where
  "navHandle (TouchStart disabled touch) now s = handleTouchStart disabled touch now s"
| "navHandle (TouchMove touch) now s = handleTouchMove touch s"
| "navHandle (TouchEnd disabled touch) now s = handleTouchEnd disabled touch now s"
| "navHandle (Click disabled) now s = handleClick disabled s"

fun navRun :: "(int \<times> nav_event) list \<Rightarrow> nav_area \<Rightarrow> nav_area" where
  "navRun [] s = s"
| "navRun ((now, e) # es) s = navRun es (navHandle e now (runTimeouts now s))"

text \<open>How often the bound action was invoked.\<close>

definition actions :: "nav_area \<Rightarrow> nat" where
  "actions s = length (filter (\<lambda>e. e = OnClick) (effects s))"

text \<open>The events that can still belong to a contact after its touch start.\<close>

fun isMoveOrEnd :: "int \<times> nav_event \<Rightarrow> bool" where
  "isMoveOrEnd (now, TouchMove touch) = True"
| "isMoveOrEnd (now, TouchEnd disabled touch) = True"
| "isMoveOrEnd (now, e) = False"

section \<open>Properties of the navigation functions\<close>

lemma callOnSwipe_currentIndex: "currentIndex (callOnSwipe opts d w) = currentIndex w"
  by (simp add: callOnSwipe_def)

lemma callNav_in_bounds:
  assumes "0 \<le> currentIndex w" and "currentIndex w \<le> totalCards opts - 1"
  shows "0 \<le> currentIndex (callNav opts c w) \<and>
         currentIndex (callNav opts c w) \<le> totalCards opts - 1"
  using assms
  by (cases c) (auto simp: goToNext_def goToPrevious_def goToIndex_def callOnSwipe_currentIndex)

lemma callNavs_in_bounds:
  assumes "0 \<le> currentIndex w" and "currentIndex w \<le> totalCards opts - 1"
  shows "0 \<le> currentIndex (callNavs opts cs w) \<and>
         currentIndex (callNavs opts cs w) \<le> totalCards opts - 1"
  using assms
proof (induction cs arbitrary: w)
  case Nil
  then show ?case by simp
next
  case (Cons c cs)
  have "0 \<le> currentIndex (callNav opts c w) \<and>
        currentIndex (callNav opts c w) \<le> totalCards opts - 1"
    using Cons.prems by (rule callNav_in_bounds)
  then show ?case using Cons.IH by simp
qed

text \<open>
  Claim C1. For a deck of \<open>N \<ge> 1\<close> cards and every finite sequence of \<open>goToNext\<close>,
  \<open>goToPrevious\<close> and \<open>goToIndex\<close> calls from the initial state, the current index
  is in \<open>[0, N - 1]\<close> after every call: after the first \<open>n\<close> calls, for every \<open>n\<close>.
\<close>

theorem index_stays_in_bounds:
  assumes "1 \<le> totalCards opts"
  shows "0 \<le> currentIndex (callNavs opts (take n calls) (useSwipeInit d)) \<and>
         currentIndex (callNavs opts (take n calls) (useSwipeInit d)) \<le> totalCards opts - 1"
proof -
  have "0 \<le> currentIndex (useSwipeInit d)"
    and "currentIndex (useSwipeInit d) \<le> totalCards opts - 1"
    using assms by (simp_all add: useSwipeInit_def)
  then show ?thesis by (rule callNavs_in_bounds)
qed

theorem index_stays_in_bounds_witness:
  "1 \<le> totalCards \<lparr>totalCards = 3, onSwipe = True\<rparr> \<and>
   currentIndex (callNavs \<lparr>totalCards = 3, onSwipe = True\<rparr>
     (take 3 [GoToNext, GoToNext, GoToNext, GoToIndex 7, GoToPrevious]) (useSwipeInit restCard)) = 2 \<and>
   0 \<le> currentIndex (callNavs \<lparr>totalCards = 3, onSwipe = True\<rparr>
     (take 3 [GoToNext, GoToNext, GoToNext, GoToIndex 7, GoToPrevious]) (useSwipeInit restCard)) \<and>
   currentIndex (callNavs \<lparr>totalCards = 3, onSwipe = True\<rparr>
     (take 3 [GoToNext, GoToNext, GoToNext, GoToIndex 7, GoToPrevious]) (useSwipeInit restCard))
     \<le> totalCards \<lparr>totalCards = 3, onSwipe = True\<rparr> - 1"
  using index_stays_in_bounds
    [of "\<lparr>totalCards = 3, onSwipe = True\<rparr>" 3
        "[GoToNext, GoToNext, GoToNext, GoToIndex 7, GoToPrevious]" restCard]
  by (simp add: useSwipeInit_def goToNext_def callOnSwipe_def)

text \<open>
  Claim C2. For every current index and every integer \<open>k\<close>, \<open>goToIndex k\<close> leaves the
  state unchanged when \<open>k < 0\<close> or \<open>k \<ge> N\<close>; otherwise it sets the index to \<open>k\<close> and
  the direction to \<open>+1\<close> when \<open>k\<close> is greater than the current index and to \<open>-1\<close>
  when it is not, so that \<open>k\<close> equal to the current index gives the direction \<open>-1\<close>.
  The drag start, the card and the scheduled callbacks stay as they are.
\<close>

theorem goToIndex_effect:
  "(k < 0 \<or> totalCards opts \<le> k \<longrightarrow> goToIndex opts k w = w) \<and>
   (0 \<le> k \<and> k < totalCards opts \<longrightarrow>
      currentIndex (goToIndex opts k w) = k \<and>
      direction (goToIndex opts k w) = (if k > currentIndex w then 1 else - 1) \<and>
      dragStart (goToIndex opts k w) = dragStart w \<and>
      cardEl (goToIndex opts k w) = cardEl w \<and>
      rafQueue (goToIndex opts k w) = rafQueue w) \<and>
   (0 \<le> k \<and> k < totalCards opts \<and> k = currentIndex w \<longrightarrow>
      direction (goToIndex opts k w) = - 1)"
  by (auto simp: goToIndex_def callOnSwipe_def)

theorem goToIndex_effect_witness:
  "goToIndex \<lparr>totalCards = 3, onSwipe = True\<rparr> 3 (useSwipeInit restCard) = useSwipeInit restCard \<and>
   goToIndex \<lparr>totalCards = 3, onSwipe = True\<rparr> (- 1) (useSwipeInit restCard) = useSwipeInit restCard \<and>
   currentIndex (goToIndex \<lparr>totalCards = 3, onSwipe = True\<rparr> 2 (useSwipeInit restCard)) = 2 \<and>
   direction (goToIndex \<lparr>totalCards = 3, onSwipe = True\<rparr> 2 (useSwipeInit restCard)) = 1 \<and>
   currentIndex (goToIndex \<lparr>totalCards = 3, onSwipe = True\<rparr> 0 (useSwipeInit restCard)) = 0 \<and>
   direction (goToIndex \<lparr>totalCards = 3, onSwipe = True\<rparr> 0 (useSwipeInit restCard)) = - 1"
  using goToIndex_effect [of 3 "\<lparr>totalCards = 3, onSwipe = True\<rparr>" "useSwipeInit restCard"]
    goToIndex_effect [of "- 1" "\<lparr>totalCards = 3, onSwipe = True\<rparr>" "useSwipeInit restCard"]
    goToIndex_effect [of 2 "\<lparr>totalCards = 3, onSwipe = True\<rparr>" "useSwipeInit restCard"]
    goToIndex_effect [of 0 "\<lparr>totalCards = 3, onSwipe = True\<rparr>" "useSwipeInit restCard"]
  by (simp add: useSwipeInit_def)




lemma callNav_empty_deck:
  assumes "totalCards opts = 0" and "currentIndex w = 0"
  shows "callNav opts c w = w"
  using assms by (cases c) (auto simp: goToNext_def goToPrevious_def goToIndex_def)

lemma callNavs_empty_deck:
  assumes "totalCards opts = 0" and "currentIndex w = 0"
  shows "callNavs opts cs w = w"
  using assms by (induction cs) (simp_all add: callNav_empty_deck)

text \<open>
  Claim C10. For an empty deck (\<open>totalCards = 0\<close>) the hook starts at index \<open>0\<close>, which
  is not below the number of cards, and direction \<open>0\<close>, and every sequence of
  \<open>goToNext\<close>, \<open>goToPrevious\<close> and \<open>goToIndex\<close> calls leaves the initial state as it is.
\<close>

theorem empty_deck_never_moves:
  assumes "totalCards opts = 0"
  shows "currentIndex (useSwipeInit d) = 0 \<and>
         direction (useSwipeInit d) = 0 \<and>
         \<not> currentIndex (useSwipeInit d) < totalCards opts \<and>
         callNavs opts calls (useSwipeInit d) = useSwipeInit d"
proof -
  have "currentIndex (useSwipeInit d) = 0"
    by (simp add: useSwipeInit_def)
  then have "callNavs opts calls (useSwipeInit d) = useSwipeInit d"
    using assms by (simp add: callNavs_empty_deck)
  then show ?thesis using assms by (simp add: useSwipeInit_def)
qed

theorem empty_deck_never_moves_witness:
  "totalCards \<lparr>totalCards = 0, onSwipe = True\<rparr> = 0 \<and>
   currentIndex (callNavs \<lparr>totalCards = 0, onSwipe = True\<rparr>
     [GoToNext, GoToIndex 0, GoToPrevious, GoToIndex 5] (useSwipeInit restCard)) = 0 \<and>
   direction (callNavs \<lparr>totalCards = 0, onSwipe = True\<rparr>
     [GoToNext, GoToIndex 0, GoToPrevious, GoToIndex 5] (useSwipeInit restCard)) = 0"
  using empty_deck_never_moves
    [of "\<lparr>totalCards = 0, onSwipe = True\<rparr>" restCard
        "[GoToNext, GoToIndex 0, GoToPrevious, GoToIndex 5]"]
  by simp

section \<open>Properties of the drag handlers\<close>

lemma goToNextOf_current: "goToNextOf opts (currentIndex w) w = goToNext opts w"
  by (simp add: goToNextOf_def goToNext_def)

lemma goToPreviousOf_current: "goToPreviousOf opts (currentIndex w) w = goToPrevious opts w"
  by (simp add: goToPreviousOf_def goToPrevious_def)

lemma restoreStyles_lockStyles: "restoreStyles (lockStyles d) = restoreStyles d"
  by (simp add: restoreStyles_def lockStyles_def option.map_comp comp_def)

lemma restoreStyles_idem: "restoreStyles (restoreStyles d) = restoreStyles d"
  by (simp add: restoreStyles_def option.map_comp comp_def)

lemma lockStyles_idem: "lockStyles (lockStyles d) = lockStyles d"
  by (simp add: lockStyles_def option.map_comp comp_def)

lemma unlocked_restoreStyles: "unlocked (restoreStyles d)"
  by (cases "bodyStyle d") (simp_all add: unlocked_def restoreStyles_def list_all_iff)

lemma restoreStyles_unlocked:
  assumes "unlocked d"
  shows "restoreStyles d = d"
proof -
  have r: "(rootStyle d)\<lparr>overflowY := ''auto'', touchAction := ''''\<rparr> = rootStyle d"
    using assms by (simp add: unlocked_def)
  have b: "map_option (\<lambda>b. b\<lparr>overflowY := ''auto'', touchAction := '''', pointerEvents := ''''\<rparr>)
             (bodyStyle d) = bodyStyle d"
    using assms by (cases "bodyStyle d") (simp_all add: unlocked_def)
  have i: "map (\<lambda>el. el\<lparr>pointerEvents := ''''\<rparr>) (interactiveStyles d) = interactiveStyles d"
    using assms by (intro map_idI) (simp add: unlocked_def list_all_iff)
  show ?thesis
    by (simp add: restoreStyles_def r b i)
qed

lemma restoreStyles_fixed_iff: "restoreStyles d = d \<longleftrightarrow> unlocked d"
proof
  assume "restoreStyles d = d"
  then show "unlocked d"
    using unlocked_restoreStyles [of d] by simp
next
  assume "unlocked d"
  then show "restoreStyles d = d"
    by (rule restoreStyles_unlocked)
qed

lemma restoreStyles_fields:
  "rootStyle (restoreStyles d) = (rootStyle d)\<lparr>overflowY := ''auto'', touchAction := ''''\<rparr> \<and>
   bodyStyle (restoreStyles d) =
     map_option (\<lambda>b. \<lparr>overflowY = ''auto'', touchAction = '''', pointerEvents = ''''\<rparr>) (bodyStyle d) \<and>
   interactiveStyles (restoreStyles d) =
     map (\<lambda>el. el\<lparr>pointerEvents := ''''\<rparr>) (interactiveStyles d)"
  by (cases "bodyStyle d") (simp_all add: restoreStyles_def)

lemma lockStyles_fields:
  "rootStyle (lockStyles d) = (rootStyle d)\<lparr>overflowY := ''hidden'', touchAction := ''pan-x''\<rparr> \<and>
   bodyStyle (lockStyles d) =
     map_option (\<lambda>b. \<lparr>overflowY = ''hidden'', touchAction = ''pan-x'', pointerEvents = ''none''\<rparr>)
       (bodyStyle d) \<and>
   interactiveStyles (lockStyles d) =
     map (\<lambda>el. el\<lparr>pointerEvents := ''none''\<rparr>) (interactiveStyles d)"
  by (cases "bodyStyle d") (simp_all add: lockStyles_def)

lemma callOnSwipe_cardEl: "cardEl (callOnSwipe opts x w) = cardEl w"
  by (simp add: callOnSwipe_def)

lemma callNav_cardEl: "cardEl (callNav opts c w) = cardEl w"
  by (cases c) (simp_all add: goToNext_def goToPrevious_def goToIndex_def callOnSwipe_cardEl)

lemma SwipeNavigate_cardEl: "cardEl (runCallback opts (SwipeNavigate ox vx c) w) = cardEl w"
  by (simp add: goToNextOf_def goToPreviousOf_def callOnSwipe_cardEl)

lemma runCallback_restored:
  "restoreStyles (cardEl (runCallback opts cb w)) = restoreStyles (cardEl w)"
proof (cases cb)
  case LockStyles
  then show ?thesis by (simp add: restoreStyles_lockStyles)
next
  case (RestoreStyles target)
  then show ?thesis by (simp add: restoreStyles_idem)
next
  case (SwipeNavigate ox vx c)
  then show ?thesis by (simp only: SwipeNavigate_cardEl)
qed

lemma runCallbacks_restored:
  "restoreStyles (cardEl (runCallbacks opts cbs w)) = restoreStyles (cardEl w)"
  by (induction cbs arbitrary: w) (simp_all add: runCallback_restored)

lemma runCallbacks_append:
  "runCallbacks opts (xs @ ys) w = runCallbacks opts ys (runCallbacks opts xs w)"
  by (induction xs arbitrary: w) simp_all

lemma swipeStep_restored:
  "restoreStyles (cardEl (swipeStep opts e w)) = restoreStyles (cardEl w)"
proof (cases e)
  case (DragStartEv info)
  then show ?thesis by (simp add: handleDragStart_def)
next
  case (DragEv target info)
  then show ?thesis
    by (simp add: handleDrag_def Let_def split: option.splits prod.splits)
next
  case (DragEndEv target info)
  then show ?thesis by (simp add: handleDragEnd_def Let_def)
next
  case FrameEv
  then show ?thesis by (simp add: runFrame_def runCallbacks_restored)
next
  case (NavEv c)
  then show ?thesis by (simp add: callNav_cardEl)
qed

lemma swipeRun_restored:
  "restoreStyles (cardEl (swipeRun opts es w)) = restoreStyles (cardEl w)"
  by (induction es arbitrary: w) (simp_all add: swipeStep_restored)

lemma runCallback_cardEl_cong:
  assumes "cardEl v = cardEl v'"
  shows "cardEl (runCallback opts cb v) = cardEl (runCallback opts cb v')"
proof (cases cb)
  case LockStyles
  then show ?thesis using assms by simp
next
  case (RestoreStyles target)
  then show ?thesis using assms by simp
next
  case (SwipeNavigate ox vx c)
  then show ?thesis using assms by (simp only: SwipeNavigate_cardEl)
qed

lemma runCallbacks_cardEl_cong:
  assumes "cardEl v = cardEl v'"
  shows "cardEl (runCallbacks opts cbs v) = cardEl (runCallbacks opts cbs v')"
  using assms
proof (induction cbs arbitrary: v v')
  case Nil
  then show ?case by simp
next
  case (Cons cb cbs)
  have "cardEl (runCallback opts cb v) = cardEl (runCallback opts cb v')"
    using Cons.prems by (rule runCallback_cardEl_cong)
  then have "cardEl (runCallbacks opts cbs (runCallback opts cb v)) =
             cardEl (runCallbacks opts cbs (runCallback opts cb v'))"
    by (rule Cons.IH)
  then show ?case by simp
qed

lemma handleDragEnd_rafQueue:
  "rafQueue (handleDragEnd target info w) =
     rafQueue w @ RestoreStyles target #
       (if \<bar>offset_x info\<bar> > \<bar>offset_y info\<bar> * 1.5 \<and>
           (\<bar>offset_x info\<bar> > 80 \<or> \<bar>velocity_x info\<bar> > 250) \<and> \<bar>offset_y info\<bar> < 60
        then [SwipeNavigate (offset_x info) (velocity_x info) (currentIndex w)] else [])"
  unfolding handleDragEnd_def Let_def by (simp del: abs_less_iff)

lemma handleDragEnd_rest:
  "(handleDragEnd target info w)\<lparr>rafQueue := []\<rparr> = w\<lparr>dragStart := None, rafQueue := []\<rparr>"
  unfolding handleDragEnd_def Let_def by simp

lemma runFrame_handleDragEnd:
  "runFrame opts (handleDragEnd target info w) =
     runCallbacks opts
       (if \<bar>offset_x info\<bar> > \<bar>offset_y info\<bar> * 1.5 \<and>
           (\<bar>offset_x info\<bar> > 80 \<or> \<bar>velocity_x info\<bar> > 250) \<and> \<bar>offset_y info\<bar> < 60
        then [SwipeNavigate (offset_x info) (velocity_x info) (currentIndex w)] else [])
       (runCallback opts (RestoreStyles target)
          (runCallbacks opts (rafQueue w) (w\<lparr>dragStart := None, rafQueue := []\<rparr>)))"
  unfolding runFrame_def handleDragEnd_rafQueue handleDragEnd_rest
  by (simp only: runCallbacks_append runCallbacks.simps)

lemma runCallbacks_navigate_cardEl:
  "cardEl (runCallbacks opts (if b then [SwipeNavigate ox vx c] else []) v) = cardEl v"
  by (cases b) (simp_all only: if_True if_False runCallbacks.simps SwipeNavigate_cardEl)

lemma runFrame_handleDragEnd_cardEl:
  "cardEl (runFrame opts (handleDragEnd True info w)) = restoreStyles (cardEl w)"
proof -
  have "cardEl (runFrame opts (handleDragEnd True info w)) =
        cardEl (runCallback opts (RestoreStyles True)
          (runCallbacks opts (rafQueue w) (w\<lparr>dragStart := None, rafQueue := []\<rparr>)))"
    unfolding runFrame_handleDragEnd by (rule runCallbacks_navigate_cardEl)
  also have "\<dots> = restoreStyles (cardEl (runCallbacks opts (rafQueue w)
                      (w\<lparr>dragStart := None, rafQueue := []\<rparr>)))"
    by simp
  also have "\<dots> = restoreStyles (cardEl (w\<lparr>dragStart := None, rafQueue := []\<rparr>))"
    by (rule runCallbacks_restored)
  finally show ?thesis by simp
qed

lemma runFrame_handleDragEnd_no_target:
  "cardEl (runFrame opts (handleDragEnd False info w)) = cardEl (runFrame opts w)"
proof -
  have "cardEl (runFrame opts (handleDragEnd False info w)) =
        cardEl (runCallback opts (RestoreStyles False)
          (runCallbacks opts (rafQueue w) (w\<lparr>dragStart := None, rafQueue := []\<rparr>)))"
    unfolding runFrame_handleDragEnd by (rule runCallbacks_navigate_cardEl)
  also have "\<dots> = cardEl (runCallbacks opts (rafQueue w) (w\<lparr>dragStart := None, rafQueue := []\<rparr>))"
    by simp
  also have "\<dots> = cardEl (runCallbacks opts (rafQueue w) (w\<lparr>rafQueue := []\<rparr>))"
    by (rule runCallbacks_cardEl_cong) simp
  finally show ?thesis by (simp add: runFrame_def)
qed

text \<open>
  Claim C4, as the code has it. After any history of events of the hook, a drag end whose
  event carries the card as its target, followed by the next animation frame, leaves the
  card with the constants the restoring callback writes, whatever the release was,
  whether or not a lock was applied and whether or not the release navigated: the root
  scrolls \<open>auto\<close> with touch handling reset (its pointer events are never touched), the
  body has all three styles reset, every interactive element has its pointer events
  reset. No lock is left. The card is in its state of before the events exactly when it
  carried these constants then. A drag end without a target restores nothing: the frame
  leaves the card as it would have without the drag end.
\<close>

theorem drag_end_restores_styles:
  "rootStyle (cardEl (runFrame opts (handleDragEnd True info (swipeRun opts es w)))) =
     (rootStyle (cardEl w))\<lparr>overflowY := ''auto'', touchAction := ''''\<rparr> \<and>
   bodyStyle (cardEl (runFrame opts (handleDragEnd True info (swipeRun opts es w)))) =
     map_option (\<lambda>b. \<lparr>overflowY = ''auto'', touchAction = '''', pointerEvents = ''''\<rparr>)
       (bodyStyle (cardEl w)) \<and>
   interactiveStyles (cardEl (runFrame opts (handleDragEnd True info (swipeRun opts es w)))) =
     map (\<lambda>el. el\<lparr>pointerEvents := ''''\<rparr>) (interactiveStyles (cardEl w)) \<and>
   unlocked (cardEl (runFrame opts (handleDragEnd True info (swipeRun opts es w)))) \<and>
   (cardEl (runFrame opts (handleDragEnd True info (swipeRun opts es w))) = cardEl w \<longleftrightarrow>
      unlocked (cardEl w)) \<and>
   cardEl (runFrame opts (handleDragEnd False info w)) = cardEl (runFrame opts w)"
proof -
  have "cardEl (runFrame opts (handleDragEnd True info (swipeRun opts es w))) =
        restoreStyles (cardEl (swipeRun opts es w))"
    by (rule runFrame_handleDragEnd_cardEl)
  also have "\<dots> = restoreStyles (cardEl w)"
    by (rule swipeRun_restored)
  finally have fin: "cardEl (runFrame opts (handleDragEnd True info (swipeRun opts es w))) =
                     restoreStyles (cardEl w)" .
  have r: "rootStyle (restoreStyles (cardEl w)) =
             (rootStyle (cardEl w))\<lparr>overflowY := ''auto'', touchAction := ''''\<rparr>"
    using restoreStyles_fields [of "cardEl w"] by (rule conjunct1)
  have b: "bodyStyle (restoreStyles (cardEl w)) =
             map_option (\<lambda>b. \<lparr>overflowY = ''auto'', touchAction = '''', pointerEvents = ''''\<rparr>)
               (bodyStyle (cardEl w))"
    using restoreStyles_fields [of "cardEl w"] by (rule conjunct2 [THEN conjunct1])
  have i: "interactiveStyles (restoreStyles (cardEl w)) =
             map (\<lambda>el. el\<lparr>pointerEvents := ''''\<rparr>) (interactiveStyles (cardEl w))"
    using restoreStyles_fields [of "cardEl w"] by (rule conjunct2 [THEN conjunct2])
  have u: "unlocked (restoreStyles (cardEl w))"
    by (rule unlocked_restoreStyles)
  have f: "restoreStyles (cardEl w) = cardEl w \<longleftrightarrow> unlocked (cardEl w)"
    by (rule restoreStyles_fixed_iff)
  have n: "cardEl (runFrame opts (handleDragEnd False info w)) = cardEl (runFrame opts w)"
    by (rule runFrame_handleDragEnd_no_target)
  show ?thesis
    unfolding fin using r b i u f n by (intro conjI)
qed

theorem drag_end_restores_styles_witness:
  "cardEl (swipeRun \<lparr>totalCards = 3, onSwipe = True\<rparr>
     [DragStartEv \<lparr>point_x = 200, point_y = 300, offset_x = 0, offset_y = 0, velocity_x = 0\<rparr>,
      DragEv True \<lparr>point_x = 170, point_y = 305, offset_x = - 30, offset_y = 5, velocity_x = - 90\<rparr>,
      FrameEv]
     (useSwipeInit restCard)) = lockedCard \<and>
   unlocked (cardEl (useSwipeInit restCard)) \<and>
   cardEl (runFrame \<lparr>totalCards = 3, onSwipe = True\<rparr>
     (handleDragEnd True
        \<lparr>point_x = 170, point_y = 305, offset_x = - 30, offset_y = 5, velocity_x = - 90\<rparr>
        (swipeRun \<lparr>totalCards = 3, onSwipe = True\<rparr>
           [DragStartEv \<lparr>point_x = 200, point_y = 300, offset_x = 0, offset_y = 0, velocity_x = 0\<rparr>,
            DragEv True \<lparr>point_x = 170, point_y = 305, offset_x = - 30, offset_y = 5, velocity_x = - 90\<rparr>,
            FrameEv]
           (useSwipeInit restCard)))) = restCard"
proof -
  let ?opts = "\<lparr>totalCards = 3, onSwipe = True\<rparr>"
  let ?end = "\<lparr>point_x = 170, point_y = 305, offset_x = - 30, offset_y = 5, velocity_x = - 90\<rparr>"
  let ?es = "[DragStartEv \<lparr>point_x = 200, point_y = 300, offset_x = 0, offset_y = 0, velocity_x = 0\<rparr>,
      DragEv True ?end, FrameEv]"
  have l: "cardEl (swipeRun ?opts ?es (useSwipeInit restCard)) = lockedCard"
    by (simp add: useSwipeInit_def restCard_def restStyle_def lockedCard_def
          handleDragStart_def handleDrag_def runFrame_def lockStyles_def)
  have u: "unlocked (cardEl (useSwipeInit restCard))"
    by (simp add: useSwipeInit_def restCard_def restStyle_def unlocked_def)
  note inst = drag_end_restores_styles [of ?opts ?end ?es "useSwipeInit restCard"]
  have "cardEl (runFrame ?opts (handleDragEnd True ?end (swipeRun ?opts ?es (useSwipeInit restCard)))) =
        cardEl (useSwipeInit restCard)"
    using inst [THEN conjunct2, THEN conjunct2, THEN conjunct2, THEN conjunct2, THEN conjunct1] u
    by (rule iffD2)
  then have e: "cardEl (runFrame ?opts (handleDragEnd True ?end
                  (swipeRun ?opts ?es (useSwipeInit restCard)))) = restCard"
    by (simp add: useSwipeInit_def)
  show ?thesis using l u e by (intro conjI)
qed

text \<open>
  The claim as it is written speaks of every drag end and of the state before the drag.
  A drag end whose event has no target restores nothing: after a locking move and its
  frame, the card at rest is left locked. And a drag end with its target writes
  constants, not what was there: the root of the card as \<open>StoryCard\<close> renders it goes
  from \<open>hidden\<close> to \<open>auto\<close> by a drag start and a drag end alone.
\<close>

theorem drag_end_leak_counterexample:
  "cardEl (swipeRun \<lparr>totalCards = 3, onSwipe = True\<rparr>
     [DragStartEv \<lparr>point_x = 200, point_y = 300, offset_x = 0, offset_y = 0, velocity_x = 0\<rparr>,
      DragEv True \<lparr>point_x = 170, point_y = 305, offset_x = - 30, offset_y = 5, velocity_x = - 90\<rparr>,
      FrameEv,
      DragEndEv False \<lparr>point_x = 170, point_y = 305, offset_x = - 30, offset_y = 5, velocity_x = - 90\<rparr>,
      FrameEv]
     (useSwipeInit restCard)) = lockedCard \<and>
   lockedCard \<noteq> restCard \<and>
   overflowY (rootStyle (cardEl (useSwipeInit storyCard))) = ''hidden'' \<and>
   overflowY (rootStyle (cardEl (swipeRun \<lparr>totalCards = 3, onSwipe = True\<rparr>
     [DragStartEv \<lparr>point_x = 200, point_y = 300, offset_x = 0, offset_y = 0, velocity_x = 0\<rparr>,
      DragEndEv True \<lparr>point_x = 200, point_y = 300, offset_x = 0, offset_y = 0, velocity_x = 0\<rparr>,
      FrameEv]
     (useSwipeInit storyCard)))) = ''auto''"
  by (simp add: useSwipeInit_def restCard_def restStyle_def lockedCard_def storyCard_def
        handleDragStart_def handleDrag_def handleDragEnd_def runFrame_def lockStyles_def
        restoreStyles_def)

lemma lockStyles_explicit:
  "lockStyles d =
     \<lparr>rootStyle = (rootStyle d)\<lparr>overflowY := ''hidden'', touchAction := ''pan-x''\<rparr>,
      bodyStyle =
        map_option (\<lambda>b. \<lparr>overflowY = ''hidden'', touchAction = ''pan-x'', pointerEvents = ''none''\<rparr>)
          (bodyStyle d),
      interactiveStyles = map (\<lambda>el. el\<lparr>pointerEvents := ''none''\<rparr>) (interactiveStyles d)\<rparr>"
  using lockStyles_fields [of d] by (cases "lockStyles d") simp

lemma runCallbacks_LockStyles:
  "runCallbacks opts (replicate (Suc n) LockStyles) w = runCallback opts LockStyles w"
proof (induction n arbitrary: w)
  case 0
  then show ?case by simp
next
  case (Suc n)
  have "runCallbacks opts (replicate (Suc (Suc n)) LockStyles) w =
        runCallbacks opts (replicate (Suc n) LockStyles) (runCallback opts LockStyles w)"
    by simp
  also have "\<dots> = runCallback opts LockStyles (runCallback opts LockStyles w)"
    by (rule Suc.IH)
  also have "\<dots> = runCallback opts LockStyles w"
    by (simp add: lockStyles_idem)
  finally show ?case .
qed

lemma handleDrag_session:
  assumes "dragStart w = Some (sx, sy)"
  shows "handleDrag target info w =
           (if target \<and> \<bar>point_x info - sx\<bar> > 10 \<and>
               \<bar>point_x info - sx\<bar> > \<bar>point_y info - sy\<bar> * 1.2
            then w\<lparr>rafQueue := rafQueue w @ [LockStyles]\<rparr> else w)"
  using assms unfolding handleDrag_def Let_def by (simp del: abs_less_iff)

text \<open>
  Claim C5, as the code has it. During a drag session (a drag start is recorded) a move
  event schedules the locking callback exactly when the event carries its target and the
  horizontal distance from the origin is above 10 and above 1.2 times the vertical
  distance; without a target it schedules nothing. The next frame then gives the card
  the lock: the root no longer scrolls vertically and handles touches as \<open>pan-x\<close>, the
  body likewise and without pointer events, and every interactive element is without
  pointer events, each element otherwise as it was. Locking a locked card changes
  nothing, and any number of locking callbacks does what one does.
\<close>

theorem drag_applies_lock:
  assumes "dragStart w = Some (sx, sy)"
  shows "handleDrag target info w =
           (if target \<and> \<bar>point_x info - sx\<bar> > 10 \<and>
               \<bar>point_x info - sx\<bar> > \<bar>point_y info - sy\<bar> * 1.2
            then w\<lparr>rafQueue := rafQueue w @ [LockStyles]\<rparr> else w) \<and>
         (rafQueue w = [] \<longrightarrow>
            cardEl (runFrame opts (handleDrag target info w)) =
              (if target \<and> \<bar>point_x info - sx\<bar> > 10 \<and>
                  \<bar>point_x info - sx\<bar> > \<bar>point_y info - sy\<bar> * 1.2
               then \<lparr>rootStyle =
                        (rootStyle (cardEl w))\<lparr>overflowY := ''hidden'', touchAction := ''pan-x''\<rparr>,
                      bodyStyle =
                        map_option
                          (\<lambda>b. \<lparr>overflowY = ''hidden'', touchAction = ''pan-x'',
                                 pointerEvents = ''none''\<rparr>)
                          (bodyStyle (cardEl w)),
                      interactiveStyles =
                        map (\<lambda>el. el\<lparr>pointerEvents := ''none''\<rparr>) (interactiveStyles (cardEl w))\<rparr>
               else cardEl w)) \<and>
         runCallback opts LockStyles (runCallback opts LockStyles w) = runCallback opts LockStyles w \<and>
         runCallbacks opts (replicate (Suc n) LockStyles) w = runCallback opts LockStyles w"
proof (intro conjI impI)
  show "handleDrag target info w =
           (if target \<and> \<bar>point_x info - sx\<bar> > 10 \<and>
               \<bar>point_x info - sx\<bar> > \<bar>point_y info - sy\<bar> * 1.2
            then w\<lparr>rafQueue := rafQueue w @ [LockStyles]\<rparr> else w)"
    using assms by (rule handleDrag_session)
next
  assume e: "rafQueue w = []"
  define lock where "lock \<longleftrightarrow> target \<and> \<bar>point_x info - sx\<bar> > 10 \<and>
               \<bar>point_x info - sx\<bar> > \<bar>point_y info - sy\<bar> * 1.2"
  have h: "handleDrag target info w = (if lock then w\<lparr>rafQueue := rafQueue w @ [LockStyles]\<rparr> else w)"
    unfolding lock_def using assms by (rule handleDrag_session)
  have "cardEl (runFrame opts (handleDrag target info w)) =
          (if lock then lockStyles (cardEl w) else cardEl w)"
    unfolding h using e by (cases lock) (simp_all add: runFrame_def)
  then show "cardEl (runFrame opts (handleDrag target info w)) =
              (if target \<and> \<bar>point_x info - sx\<bar> > 10 \<and>
                  \<bar>point_x info - sx\<bar> > \<bar>point_y info - sy\<bar> * 1.2
               then \<lparr>rootStyle =
                        (rootStyle (cardEl w))\<lparr>overflowY := ''hidden'', touchAction := ''pan-x''\<rparr>,
                      bodyStyle =
                        map_option
                          (\<lambda>b. \<lparr>overflowY = ''hidden'', touchAction = ''pan-x'',
                                 pointerEvents = ''none''\<rparr>)
                          (bodyStyle (cardEl w)),
                      interactiveStyles =
                        map (\<lambda>el. el\<lparr>pointerEvents := ''none''\<rparr>) (interactiveStyles (cardEl w))\<rparr>
               else cardEl w)"
    unfolding lock_def lockStyles_explicit [of "cardEl w"] .
next
  show "runCallback opts LockStyles (runCallback opts LockStyles w) = runCallback opts LockStyles w"
    by (simp add: lockStyles_idem)
next
  show "runCallbacks opts (replicate (Suc n) LockStyles) w = runCallback opts LockStyles w"
    by (rule runCallbacks_LockStyles)
qed

theorem drag_applies_lock_witness:
  "dragStart \<lparr>currentIndex = 0, direction = 0, dragStart = Some (200, 300), onSwipeCalls = [],
      cardEl = restCard, rafQueue = []\<rparr> = Some (200, 300) \<and>
   rafQueue (handleDrag True
      \<lparr>point_x = 170, point_y = 305, offset_x = - 30, offset_y = 5, velocity_x = - 90\<rparr>
      \<lparr>currentIndex = 0, direction = 0, dragStart = Some (200, 300), onSwipeCalls = [],
         cardEl = restCard, rafQueue = []\<rparr>) = [LockStyles] \<and>
   cardEl (runFrame \<lparr>totalCards = 3, onSwipe = True\<rparr> (handleDrag True
      \<lparr>point_x = 170, point_y = 305, offset_x = - 30, offset_y = 5, velocity_x = - 90\<rparr>
      \<lparr>currentIndex = 0, direction = 0, dragStart = Some (200, 300), onSwipeCalls = [],
         cardEl = restCard, rafQueue = []\<rparr>)) = lockedCard \<and>
   handleDrag True
      \<lparr>point_x = 205, point_y = 340, offset_x = 5, offset_y = 40, velocity_x = 10\<rparr>
      \<lparr>currentIndex = 0, direction = 0, dragStart = Some (200, 300), onSwipeCalls = [],
         cardEl = restCard, rafQueue = []\<rparr> =
      \<lparr>currentIndex = 0, direction = 0, dragStart = Some (200, 300), onSwipeCalls = [],
         cardEl = restCard, rafQueue = []\<rparr>"
proof -
  let ?opts = "\<lparr>totalCards = 3, onSwipe = True\<rparr>"
  let ?w = "\<lparr>currentIndex = 0, direction = 0, dragStart = Some (200, 300), onSwipeCalls = [],
      cardEl = restCard, rafQueue = []\<rparr>"
  let ?across = "\<lparr>point_x = 170, point_y = 305, offset_x = - 30, offset_y = 5, velocity_x = - 90\<rparr>"
  let ?down = "\<lparr>point_x = 205, point_y = 340, offset_x = 5, offset_y = 40, velocity_x = 10\<rparr>"
  have s: "dragStart ?w = Some (200, 300)"
    by simp
  have e: "rafQueue ?w = []"
    by simp
  have a: "rafQueue (handleDrag True ?across ?w) = [LockStyles]"
    using drag_applies_lock [OF s, of True ?across ?opts 0, THEN conjunct1] by simp
  have b: "cardEl (runFrame ?opts (handleDrag True ?across ?w)) = lockedCard"
    using drag_applies_lock [OF s, of True ?across ?opts 0, THEN conjunct2, THEN conjunct1,
        THEN mp, OF e]
    by (simp add: restCard_def restStyle_def lockedCard_def)
  have c: "handleDrag True ?down ?w = ?w"
    using drag_applies_lock [OF s, of True ?down ?opts 0, THEN conjunct1] by simp
  show ?thesis using s a b c by (intro conjI)
qed

text \<open>
  The claim as it is written locks on every move event of a session that meets the
  condition. A move event without a target meets it here (\<open>dx = 30\<close>, \<open>dy = 5\<close>) and
  schedules nothing: the frame leaves the card at rest.
\<close>

theorem drag_without_target_counterexample:
  "dragStart \<lparr>currentIndex = 0, direction = 0, dragStart = Some (200, 300), onSwipeCalls = [],
      cardEl = restCard, rafQueue = []\<rparr> = Some (200, 300) \<and>
   \<bar>point_x \<lparr>point_x = 170, point_y = 305, offset_x = - 30, offset_y = 5, velocity_x = - 90\<rparr> - 200\<bar>
     > 10 \<and>
   \<bar>point_x \<lparr>point_x = 170, point_y = 305, offset_x = - 30, offset_y = 5, velocity_x = - 90\<rparr> - 200\<bar>
     > \<bar>point_y \<lparr>point_x = 170, point_y = 305, offset_x = - 30, offset_y = 5, velocity_x = - 90\<rparr>
          - 300\<bar> * 1.2 \<and>
   rafQueue (handleDrag False
      \<lparr>point_x = 170, point_y = 305, offset_x = - 30, offset_y = 5, velocity_x = - 90\<rparr>
      \<lparr>currentIndex = 0, direction = 0, dragStart = Some (200, 300), onSwipeCalls = [],
         cardEl = restCard, rafQueue = []\<rparr>) = [] \<and>
   cardEl (runFrame \<lparr>totalCards = 3, onSwipe = True\<rparr> (handleDrag False
      \<lparr>point_x = 170, point_y = 305, offset_x = - 30, offset_y = 5, velocity_x = - 90\<rparr>
      \<lparr>currentIndex = 0, direction = 0, dragStart = Some (200, 300), onSwipeCalls = [],
         cardEl = restCard, rafQueue = []\<rparr>)) = restCard"
  by (simp add: handleDrag_def runFrame_def)

lemma callNav_dragStart: "dragStart (callNav opts c w) = dragStart w"
  by (cases c) (simp_all add: goToNext_def goToPrevious_def goToIndex_def callOnSwipe_def)

lemma callNav_rafQueue: "rafQueue (callNav opts c w) = rafQueue w"
  by (cases c) (simp_all add: goToNext_def goToPrevious_def goToIndex_def callOnSwipe_def)

lemma runCallback_dragStart: "dragStart (runCallback opts cb w) = dragStart w"
  by (cases cb) (simp_all add: goToNextOf_def goToPreviousOf_def callOnSwipe_def)

lemma runCallback_rafQueue: "rafQueue (runCallback opts cb w) = rafQueue w"
  by (cases cb) (simp_all add: goToNextOf_def goToPreviousOf_def callOnSwipe_def)

lemma runCallbacks_dragStart: "dragStart (runCallbacks opts cbs w) = dragStart w"
  by (induction cbs arbitrary: w) (simp_all add: runCallback_dragStart)

lemma runCallbacks_rafQueue: "rafQueue (runCallbacks opts cbs w) = rafQueue w"
  by (induction cbs arbitrary: w) (simp_all add: runCallback_rafQueue)

lemma runCallback_no_lock:
  assumes "cb \<noteq> LockStyles"
  shows "cardEl (runCallback opts cb w) = cardEl w \<or>
         cardEl (runCallback opts cb w) = restoreStyles (cardEl w)"
proof (cases cb)
  case LockStyles
  then show ?thesis using assms by simp
next
  case (RestoreStyles target)
  then show ?thesis by simp
next
  case (SwipeNavigate ox vx c)
  then show ?thesis by (simp only: SwipeNavigate_cardEl simp_thms)
qed

lemma runCallbacks_no_lock:
  assumes "LockStyles \<notin> set cbs"
  shows "cardEl (runCallbacks opts cbs w) = cardEl w \<or>
         cardEl (runCallbacks opts cbs w) = restoreStyles (cardEl w)"
  using assms
proof (induction cbs arbitrary: w)
  case Nil
  then show ?case by simp
next
  case (Cons cb cbs)
  have step: "cardEl (runCallback opts cb w) = cardEl w \<or>
              cardEl (runCallback opts cb w) = restoreStyles (cardEl w)"
    using Cons.prems by (intro runCallback_no_lock) auto
  have rest: "cardEl (runCallbacks opts cbs (runCallback opts cb w)) = cardEl (runCallback opts cb w) \<or>
              cardEl (runCallbacks opts cbs (runCallback opts cb w)) =
                restoreStyles (cardEl (runCallback opts cb w))"
    using Cons.prems by (intro Cons.IH) auto
  show ?case using step rest by (auto simp: restoreStyles_idem)
qed

lemma swipeStep_no_session:
  assumes "dragStart w = None" and "\<not> isDragStart e"
  shows "dragStart (swipeStep opts e w) = None \<and>
         count_list (rafQueue (swipeStep opts e w)) LockStyles \<le> count_list (rafQueue w) LockStyles"
proof (cases e)
  case (DragStartEv info)
  then show ?thesis using assms by simp
next
  case (DragEv target info)
  then show ?thesis using assms by (simp add: handleDrag_def)
next
  case (DragEndEv target info)
  then show ?thesis using assms by (simp add: handleDragEnd_rafQueue) (simp add: handleDragEnd_def Let_def)
next
  case FrameEv
  then show ?thesis
    using assms by (simp add: runFrame_def runCallbacks_dragStart runCallbacks_rafQueue)
next
  case (NavEv c)
  then show ?thesis
    using assms by (simp add: callNav_dragStart callNav_rafQueue)
qed

lemma swipeRun_no_session:
  assumes "dragStart w = None" and "list_all (\<lambda>e. \<not> isDragStart e) es"
  shows "dragStart (swipeRun opts es w) = None \<and>
         count_list (rafQueue (swipeRun opts es w)) LockStyles \<le> count_list (rafQueue w) LockStyles"
  using assms
proof (induction es arbitrary: w)
  case Nil
  then show ?case by simp
next
  case (Cons e es)
  have step: "dragStart (swipeStep opts e w) = None \<and>
         count_list (rafQueue (swipeStep opts e w)) LockStyles \<le> count_list (rafQueue w) LockStyles"
    using Cons.prems by (intro swipeStep_no_session) simp_all
  have rest: "dragStart (swipeRun opts es (swipeStep opts e w)) = None \<and>
         count_list (rafQueue (swipeRun opts es (swipeStep opts e w))) LockStyles \<le>
           count_list (rafQueue (swipeStep opts e w)) LockStyles"
    using Cons.prems step by (intro Cons.IH) simp_all
  show ?case using step rest by simp
qed

lemma swipeStep_no_pending:
  assumes "dragStart w = None" and "LockStyles \<notin> set (rafQueue w)" and "\<not> isDragStart e"
  shows "LockStyles \<notin> set (rafQueue (swipeStep opts e w)) \<and>
         (cardEl (swipeStep opts e w) = cardEl w \<or>
          cardEl (swipeStep opts e w) = restoreStyles (cardEl w))"
proof (cases e)
  case (DragStartEv info)
  then show ?thesis using assms by simp
next
  case (DragEv target info)
  then show ?thesis using assms by (simp add: handleDrag_def)
next
  case (DragEndEv target info)
  then show ?thesis using assms by (simp add: handleDragEnd_def Let_def)
next
  case FrameEv
  have "cardEl (runCallbacks opts (rafQueue w) (w\<lparr>rafQueue := []\<rparr>)) = cardEl (w\<lparr>rafQueue := []\<rparr>) \<or>
        cardEl (runCallbacks opts (rafQueue w) (w\<lparr>rafQueue := []\<rparr>)) =
          restoreStyles (cardEl (w\<lparr>rafQueue := []\<rparr>))"
    using assms(2) by (rule runCallbacks_no_lock)
  then show ?thesis
    using FrameEv by (simp add: runFrame_def runCallbacks_rafQueue)
next
  case (NavEv c)
  then show ?thesis
    using assms by (simp add: callNav_rafQueue callNav_cardEl)
qed

lemma swipeRun_no_pending:
  assumes "dragStart w = None" and "LockStyles \<notin> set (rafQueue w)"
    and "list_all (\<lambda>e. \<not> isDragStart e) es"
  shows "LockStyles \<notin> set (rafQueue (swipeRun opts es w)) \<and>
         (cardEl (swipeRun opts es w) = cardEl w \<or>
          cardEl (swipeRun opts es w) = restoreStyles (cardEl w))"
  using assms
proof (induction es arbitrary: w)
  case Nil
  then show ?case by simp
next
  case (Cons e es)
  have none: "dragStart (swipeStep opts e w) = None"
    using Cons.prems swipeStep_no_session [of w e opts] by simp
  have step: "LockStyles \<notin> set (rafQueue (swipeStep opts e w)) \<and>
         (cardEl (swipeStep opts e w) = cardEl w \<or>
          cardEl (swipeStep opts e w) = restoreStyles (cardEl w))"
    using Cons.prems by (intro swipeStep_no_pending) simp_all
  have rest: "LockStyles \<notin> set (rafQueue (swipeRun opts es (swipeStep opts e w))) \<and>
         (cardEl (swipeRun opts es (swipeStep opts e w)) = cardEl (swipeStep opts e w) \<or>
          cardEl (swipeRun opts es (swipeStep opts e w)) =
            restoreStyles (cardEl (swipeStep opts e w)))"
    using Cons.prems none step by (intro Cons.IH) simp_all
  show ?case using step rest by (auto simp: restoreStyles_idem)
qed

text \<open>
  Claim C9, as the code has it. Without a drag session (no drag start recorded: on the
  first render and after every drag end) a drag move changes nothing: it schedules no
  callback and touches no style. So as long as no drag starts, whatever else happens,
  the session stays absent and the locking callbacks that are pending never become
  more; with none pending, none is ever scheduled and the card keeps its styles or gets
  the restored ones. The lock itself is written by the frame: a drag end clears the
  session at once and leaves a pending locking callback in the queue, to run in the next
  frame, when the session is over.
\<close>

theorem drag_without_session_is_noop:
  "(dragStart w = None \<longrightarrow> handleDrag target info w = w) \<and>
   dragStart (useSwipeInit d) = None \<and>
   dragStart (handleDragEnd target info w) = None \<and>
   (dragStart w = None \<and> list_all (\<lambda>e. \<not> isDragStart e) es \<longrightarrow>
      dragStart (swipeRun opts es w) = None \<and>
      count_list (rafQueue (swipeRun opts es w)) LockStyles \<le> count_list (rafQueue w) LockStyles) \<and>
   (dragStart w = None \<and> LockStyles \<notin> set (rafQueue w) \<and>
    list_all (\<lambda>e. \<not> isDragStart e) es \<longrightarrow>
      LockStyles \<notin> set (rafQueue (swipeRun opts es w)) \<and>
      (cardEl (swipeRun opts es w) = cardEl w \<or>
       cardEl (swipeRun opts es w) = restoreStyles (cardEl w))) \<and>
   (LockStyles \<in> set (rafQueue w) \<longrightarrow>
      LockStyles \<in> set (rafQueue (handleDragEnd target info w)))"
proof -
  have a: "dragStart w = None \<longrightarrow> handleDrag target info w = w"
    by (simp add: handleDrag_def)
  have b: "dragStart (useSwipeInit d) = None"
    by (simp add: useSwipeInit_def)
  have c: "dragStart (handleDragEnd target info w) = None"
    by (simp add: handleDragEnd_def Let_def)
  have d: "dragStart w = None \<and> list_all (\<lambda>e. \<not> isDragStart e) es \<longrightarrow>
      dragStart (swipeRun opts es w) = None \<and>
      count_list (rafQueue (swipeRun opts es w)) LockStyles \<le> count_list (rafQueue w) LockStyles"
    using swipeRun_no_session [of w es opts] by (intro impI) (elim conjE)
  have e: "dragStart w = None \<and> LockStyles \<notin> set (rafQueue w) \<and>
    list_all (\<lambda>e. \<not> isDragStart e) es \<longrightarrow>
      LockStyles \<notin> set (rafQueue (swipeRun opts es w)) \<and>
      (cardEl (swipeRun opts es w) = cardEl w \<or>
       cardEl (swipeRun opts es w) = restoreStyles (cardEl w))"
    using swipeRun_no_pending [of w es opts] by (intro impI) (elim conjE)
  have f: "LockStyles \<in> set (rafQueue w) \<longrightarrow>
      LockStyles \<in> set (rafQueue (handleDragEnd target info w))"
    by (simp add: handleDragEnd_rafQueue)
  show ?thesis using a b c d e f by (intro conjI)
qed

theorem drag_without_session_is_noop_witness:
  "dragStart (useSwipeInit restCard) = None \<and>
   handleDrag True \<lparr>point_x = 170, point_y = 305, offset_x = - 30, offset_y = 5, velocity_x = - 90\<rparr>
     (useSwipeInit restCard) = useSwipeInit restCard \<and>
   LockStyles \<notin> set (rafQueue (useSwipeInit restCard)) \<and>
   list_all (\<lambda>e. \<not> isDragStart e)
     [DragEv True \<lparr>point_x = 170, point_y = 305, offset_x = - 30, offset_y = 5, velocity_x = - 90\<rparr>,
      FrameEv, NavEv GoToNext] \<and>
   dragStart (swipeRun \<lparr>totalCards = 3, onSwipe = True\<rparr>
     [DragEv True \<lparr>point_x = 170, point_y = 305, offset_x = - 30, offset_y = 5, velocity_x = - 90\<rparr>,
      FrameEv, NavEv GoToNext] (useSwipeInit restCard)) = None \<and>
   cardEl (swipeRun \<lparr>totalCards = 3, onSwipe = True\<rparr>
     [DragEv True \<lparr>point_x = 170, point_y = 305, offset_x = - 30, offset_y = 5, velocity_x = - 90\<rparr>,
      FrameEv, NavEv GoToNext] (useSwipeInit restCard)) = restCard \<and>
   LockStyles \<in> set (rafQueue \<lparr>currentIndex = 0, direction = 0, dragStart = Some (200, 300),
      onSwipeCalls = [], cardEl = restCard, rafQueue = [LockStyles]\<rparr>) \<and>
   LockStyles \<in> set (rafQueue (handleDragEnd True
      \<lparr>point_x = 170, point_y = 305, offset_x = - 30, offset_y = 5, velocity_x = - 90\<rparr>
      \<lparr>currentIndex = 0, direction = 0, dragStart = Some (200, 300),
         onSwipeCalls = [], cardEl = restCard, rafQueue = [LockStyles]\<rparr>))"
proof -
  let ?opts = "\<lparr>totalCards = 3, onSwipe = True\<rparr>"
  let ?mv = "\<lparr>point_x = 170, point_y = 305, offset_x = - 30, offset_y = 5, velocity_x = - 90\<rparr>"
  let ?es = "[DragEv True ?mv, FrameEv, NavEv GoToNext]"
  let ?w2 = "\<lparr>currentIndex = 0, direction = 0, dragStart = Some (200, 300),
      onSwipeCalls = [], cardEl = restCard, rafQueue = [LockStyles]\<rparr>"
  note inst = drag_without_session_is_noop [of "useSwipeInit restCard" True ?mv restCard ?es ?opts]
  note inst2 = drag_without_session_is_noop [of ?w2 True ?mv restCard ?es ?opts]
  have s: "dragStart (useSwipeInit restCard) = None"
    using inst by (rule conjunct2 [THEN conjunct1])
  have h: "handleDrag True ?mv (useSwipeInit restCard) = useSwipeInit restCard"
    using inst [THEN conjunct1] s by (rule mp)
  have q: "LockStyles \<notin> set (rafQueue (useSwipeInit restCard))"
    by (simp add: useSwipeInit_def)
  have n: "list_all (\<lambda>e. \<not> isDragStart e) ?es"
    by simp
  have pre1: "dragStart (useSwipeInit restCard) = None \<and> list_all (\<lambda>e. \<not> isDragStart e) ?es"
    using s n by (intro conjI)
  have k: "dragStart (swipeRun ?opts ?es (useSwipeInit restCard)) = None"
    using inst [THEN conjunct2, THEN conjunct2, THEN conjunct2, THEN conjunct1, THEN mp, OF pre1]
    by (rule conjunct1)
  have pre2: "dragStart (useSwipeInit restCard) = None \<and>
             LockStyles \<notin> set (rafQueue (useSwipeInit restCard)) \<and>
             list_all (\<lambda>e. \<not> isDragStart e) ?es"
    using s q n by (intro conjI)
  have "cardEl (swipeRun ?opts ?es (useSwipeInit restCard)) = cardEl (useSwipeInit restCard) \<or>
        cardEl (swipeRun ?opts ?es (useSwipeInit restCard)) =
          restoreStyles (cardEl (useSwipeInit restCard))"
    using inst [THEN conjunct2, THEN conjunct2, THEN conjunct2, THEN conjunct2, THEN conjunct1,
        THEN mp, OF pre2]
    by (rule conjunct2)
  moreover have "restoreStyles (cardEl (useSwipeInit restCard)) = restCard"
    by (simp add: useSwipeInit_def restCard_def restStyle_def restoreStyles_def)
  moreover have "cardEl (useSwipeInit restCard) = restCard"
    by (simp add: useSwipeInit_def)
  ultimately have c: "cardEl (swipeRun ?opts ?es (useSwipeInit restCard)) = restCard"
    by (elim disjE) simp_all
  have p: "LockStyles \<in> set (rafQueue ?w2)"
    by simp
  have r: "LockStyles \<in> set (rafQueue (handleDragEnd True ?mv ?w2))"
    using inst2 [THEN conjunct2, THEN conjunct2, THEN conjunct2, THEN conjunct2, THEN conjunct2] p
    by (rule mp)
  show ?thesis using s h q n k c p r by (intro conjI)
qed

text \<open>
  The claim as it is written has a lock applied only between a drag start and its drag
  end. A drag start, a locking move and the drag end, all before the next frame: the
  session is over and the card still at rest; the frame then writes the lock. When the
  drag end has no target the lock stays; when it has one, the locking callback still
  runs after the session, just before the restoring one.
\<close>

theorem lock_after_session_counterexample:
  "dragStart (swipeRun \<lparr>totalCards = 3, onSwipe = True\<rparr>
     [DragStartEv \<lparr>point_x = 200, point_y = 300, offset_x = 0, offset_y = 0, velocity_x = 0\<rparr>,
      DragEv True \<lparr>point_x = 170, point_y = 305, offset_x = - 30, offset_y = 5, velocity_x = - 90\<rparr>,
      DragEndEv False \<lparr>point_x = 170, point_y = 305, offset_x = - 30, offset_y = 5, velocity_x = - 90\<rparr>]
     (useSwipeInit restCard)) = None \<and>
   cardEl (swipeRun \<lparr>totalCards = 3, onSwipe = True\<rparr>
     [DragStartEv \<lparr>point_x = 200, point_y = 300, offset_x = 0, offset_y = 0, velocity_x = 0\<rparr>,
      DragEv True \<lparr>point_x = 170, point_y = 305, offset_x = - 30, offset_y = 5, velocity_x = - 90\<rparr>,
      DragEndEv False \<lparr>point_x = 170, point_y = 305, offset_x = - 30, offset_y = 5, velocity_x = - 90\<rparr>]
     (useSwipeInit restCard)) = restCard \<and>
   cardEl (swipeRun \<lparr>totalCards = 3, onSwipe = True\<rparr>
     [DragStartEv \<lparr>point_x = 200, point_y = 300, offset_x = 0, offset_y = 0, velocity_x = 0\<rparr>,
      DragEv True \<lparr>point_x = 170, point_y = 305, offset_x = - 30, offset_y = 5, velocity_x = - 90\<rparr>,
      DragEndEv False \<lparr>point_x = 170, point_y = 305, offset_x = - 30, offset_y = 5, velocity_x = - 90\<rparr>,
      FrameEv]
     (useSwipeInit restCard)) = lockedCard \<and>
   dragStart (swipeRun \<lparr>totalCards = 3, onSwipe = True\<rparr>
     [DragStartEv \<lparr>point_x = 200, point_y = 300, offset_x = 0, offset_y = 0, velocity_x = 0\<rparr>,
      DragEv True \<lparr>point_x = 170, point_y = 305, offset_x = - 30, offset_y = 5, velocity_x = - 90\<rparr>,
      DragEndEv True \<lparr>point_x = 170, point_y = 305, offset_x = - 30, offset_y = 5, velocity_x = - 90\<rparr>]
     (useSwipeInit restCard)) = None \<and>
   rafQueue (swipeRun \<lparr>totalCards = 3, onSwipe = True\<rparr>
     [DragStartEv \<lparr>point_x = 200, point_y = 300, offset_x = 0, offset_y = 0, velocity_x = 0\<rparr>,
      DragEv True \<lparr>point_x = 170, point_y = 305, offset_x = - 30, offset_y = 5, velocity_x = - 90\<rparr>,
      DragEndEv True \<lparr>point_x = 170, point_y = 305, offset_x = - 30, offset_y = 5, velocity_x = - 90\<rparr>]
     (useSwipeInit restCard)) = [LockStyles, RestoreStyles True]"
  by (simp add: useSwipeInit_def restCard_def restStyle_def lockedCard_def
        handleDragStart_def handleDrag_def handleDragEnd_def runFrame_def lockStyles_def)

text \<open>
  Claim C3, as the code has it. A drag end always schedules the restoring callback and
  clears the drag start. It schedules the navigating callback exactly when
  \<open>|dx| > |dy| * 1.5\<close> and (\<open>|dx| > 80\<close> or \<open>|vx| > 250\<close>, both strict) and
  \<open>|dy| < 60\<close>; the next frame then calls \<open>goToPrevious\<close> if \<open>dx > 0\<close> or \<open>vx > 0\<close> and
  \<open>goToNext\<close> otherwise, after the styles are restored. In all other cases the frame
  only restores the styles: no navigation function is called.
\<close>

theorem swipe_end_resolution:
  "rafQueue (handleDragEnd target info w) =
     rafQueue w @ RestoreStyles target #
       (if \<bar>offset_x info\<bar> > \<bar>offset_y info\<bar> * 1.5 \<and>
           (\<bar>offset_x info\<bar> > 80 \<or> \<bar>velocity_x info\<bar> > 250) \<and> \<bar>offset_y info\<bar> < 60
        then [SwipeNavigate (offset_x info) (velocity_x info) (currentIndex w)] else []) \<and>
   (rafQueue w = [] \<longrightarrow>
      runFrame opts (handleDragEnd target info w) =
        (if \<bar>offset_x info\<bar> > \<bar>offset_y info\<bar> * 1.5 \<and>
            (\<bar>offset_x info\<bar> > 80 \<or> \<bar>velocity_x info\<bar> > 250) \<and> \<bar>offset_y info\<bar> < 60
         then (if offset_x info > 0 \<or> velocity_x info > 0
               then goToPrevious opts (runCallback opts (RestoreStyles target) (w\<lparr>dragStart := None\<rparr>))
               else goToNext opts (runCallback opts (RestoreStyles target) (w\<lparr>dragStart := None\<rparr>)))
         else runCallback opts (RestoreStyles target) (w\<lparr>dragStart := None\<rparr>)))"
proof (intro conjI impI)
  show "rafQueue (handleDragEnd target info w) =
     rafQueue w @ RestoreStyles target #
       (if \<bar>offset_x info\<bar> > \<bar>offset_y info\<bar> * 1.5 \<and>
           (\<bar>offset_x info\<bar> > 80 \<or> \<bar>velocity_x info\<bar> > 250) \<and> \<bar>offset_y info\<bar> < 60
        then [SwipeNavigate (offset_x info) (velocity_x info) (currentIndex w)] else [])"
    by (rule handleDragEnd_rafQueue)
next
  assume e: "rafQueue w = []"
  define nav where "nav \<longleftrightarrow> \<bar>offset_x info\<bar> > \<bar>offset_y info\<bar> * 1.5 \<and>
            (\<bar>offset_x info\<bar> > 80 \<or> \<bar>velocity_x info\<bar> > 250) \<and> \<bar>offset_y info\<bar> < 60"
  define base where "base = runCallback opts (RestoreStyles target) (w\<lparr>dragStart := None\<rparr>)"
  have r: "w\<lparr>dragStart := None, rafQueue := []\<rparr> = w\<lparr>dragStart := None\<rparr>"
    using e by simp
  have i: "currentIndex base = currentIndex w"
    unfolding base_def by simp
  have f: "runFrame opts (handleDragEnd target info w) =
           runCallbacks opts
             (if nav then [SwipeNavigate (offset_x info) (velocity_x info) (currentIndex w)] else [])
             base"
    unfolding nav_def base_def runFrame_handleDragEnd e r by simp
  have "runFrame opts (handleDragEnd target info w) =
        (if nav
         then (if offset_x info > 0 \<or> velocity_x info > 0
               then goToPrevious opts base else goToNext opts base)
         else base)"
    unfolding f
    using goToPreviousOf_current [of opts base] goToNextOf_current [of opts base]
    by (cases nav) (simp_all add: i)
  then show "runFrame opts (handleDragEnd target info w) =
        (if \<bar>offset_x info\<bar> > \<bar>offset_y info\<bar> * 1.5 \<and>
            (\<bar>offset_x info\<bar> > 80 \<or> \<bar>velocity_x info\<bar> > 250) \<and> \<bar>offset_y info\<bar> < 60
         then (if offset_x info > 0 \<or> velocity_x info > 0
               then goToPrevious opts (runCallback opts (RestoreStyles target) (w\<lparr>dragStart := None\<rparr>))
               else goToNext opts (runCallback opts (RestoreStyles target) (w\<lparr>dragStart := None\<rparr>)))
         else runCallback opts (RestoreStyles target) (w\<lparr>dragStart := None\<rparr>))"
    unfolding nav_def base_def .
qed

theorem swipe_end_resolution_witness:
  "rafQueue \<lparr>currentIndex = 1, direction = 1, dragStart = Some (200, 300), onSwipeCalls = [1],
      cardEl = restCard, rafQueue = []\<rparr> = [] \<and>
   currentIndex (runFrame \<lparr>totalCards = 3, onSwipe = True\<rparr>
     (handleDragEnd True
        \<lparr>point_x = 300, point_y = 310, offset_x = 100, offset_y = 10, velocity_x = 0\<rparr>
        \<lparr>currentIndex = 1, direction = 1, dragStart = Some (200, 300), onSwipeCalls = [1],
           cardEl = restCard, rafQueue = []\<rparr>)) = 0 \<and>
   currentIndex (runFrame \<lparr>totalCards = 3, onSwipe = True\<rparr>
     (handleDragEnd True
        \<lparr>point_x = 100, point_y = 310, offset_x = - 100, offset_y = 10, velocity_x = 0\<rparr>
        \<lparr>currentIndex = 1, direction = 1, dragStart = Some (200, 300), onSwipeCalls = [1],
           cardEl = restCard, rafQueue = []\<rparr>)) = 2 \<and>
   currentIndex (runFrame \<lparr>totalCards = 3, onSwipe = True\<rparr>
     (handleDragEnd True
        \<lparr>point_x = 230, point_y = 305, offset_x = 30, offset_y = 5, velocity_x = 0\<rparr>
        \<lparr>currentIndex = 1, direction = 1, dragStart = Some (200, 300), onSwipeCalls = [1],
           cardEl = restCard, rafQueue = []\<rparr>)) = 1 \<and>
   rafQueue (handleDragEnd True
        \<lparr>point_x = 230, point_y = 305, offset_x = 30, offset_y = 5, velocity_x = 0\<rparr>
        \<lparr>currentIndex = 1, direction = 1, dragStart = Some (200, 300), onSwipeCalls = [1],
           cardEl = restCard, rafQueue = []\<rparr>) = [RestoreStyles True]"
proof -
  let ?opts = "\<lparr>totalCards = 3, onSwipe = True\<rparr>"
  let ?w = "\<lparr>currentIndex = 1, direction = 1, dragStart = Some (200, 300), onSwipeCalls = [1],
      cardEl = restCard, rafQueue = []\<rparr>"
  let ?right = "\<lparr>point_x = 300, point_y = 310, offset_x = 100, offset_y = 10, velocity_x = 0\<rparr>"
  let ?left = "\<lparr>point_x = 100, point_y = 310, offset_x = - 100, offset_y = 10, velocity_x = 0\<rparr>"
  let ?short = "\<lparr>point_x = 230, point_y = 305, offset_x = 30, offset_y = 5, velocity_x = 0\<rparr>"
  have e: "rafQueue ?w = []"
    by simp
  have a: "currentIndex (runFrame ?opts (handleDragEnd True ?right ?w)) = 0"
    using swipe_end_resolution [of True ?right ?w ?opts, THEN conjunct2, THEN mp, OF e]
    by (simp add: goToPrevious_def callOnSwipe_def)
  have b: "currentIndex (runFrame ?opts (handleDragEnd True ?left ?w)) = 2"
    using swipe_end_resolution [of True ?left ?w ?opts, THEN conjunct2, THEN mp, OF e]
    by (simp add: goToNext_def callOnSwipe_def)
  have c: "currentIndex (runFrame ?opts (handleDragEnd True ?short ?w)) = 1"
    using swipe_end_resolution [of True ?short ?w ?opts, THEN conjunct2, THEN mp, OF e]
    by simp
  have d: "rafQueue (handleDragEnd True ?short ?w) = [RestoreStyles True]"
    using swipe_end_resolution [of True ?short ?w ?opts, THEN conjunct1]
    by simp
  show ?thesis using e a b c d by (intro conjI)
qed

text \<open>
  The claim as it is written takes the thresholds as reached at \<open>|dx| = 80\<close>. A release
  at offset \<open>(80, 0)\<close> with velocity \<open>0\<close> on the second of three cards meets the
  claim's condition for \<open>goToPrevious\<close>, which would move to index \<open>0\<close>; the handler
  schedules the restoring callback only and the index stays \<open>1\<close>.
\<close>

theorem swipe_threshold_counterexample:
  "\<bar>offset_x \<lparr>point_x = 280, point_y = 300, offset_x = 80, offset_y = 0, velocity_x = 0\<rparr>\<bar> >
     \<bar>offset_y \<lparr>point_x = 280, point_y = 300, offset_x = 80, offset_y = 0, velocity_x = 0\<rparr>\<bar> * 1.5 \<and>
   \<bar>offset_x \<lparr>point_x = 280, point_y = 300, offset_x = 80, offset_y = 0, velocity_x = 0\<rparr>\<bar> \<ge> 80 \<and>
   \<bar>offset_y \<lparr>point_x = 280, point_y = 300, offset_x = 80, offset_y = 0, velocity_x = 0\<rparr>\<bar> < 60 \<and>
   offset_x \<lparr>point_x = 280, point_y = 300, offset_x = 80, offset_y = 0, velocity_x = 0\<rparr> > 0 \<and>
   rafQueue (handleDragEnd True
        \<lparr>point_x = 280, point_y = 300, offset_x = 80, offset_y = 0, velocity_x = 0\<rparr>
        \<lparr>currentIndex = 1, direction = 1, dragStart = Some (200, 300), onSwipeCalls = [1],
           cardEl = restCard, rafQueue = []\<rparr>) = [RestoreStyles True] \<and>
   currentIndex (runFrame \<lparr>totalCards = 3, onSwipe = True\<rparr>
     (handleDragEnd True
        \<lparr>point_x = 280, point_y = 300, offset_x = 80, offset_y = 0, velocity_x = 0\<rparr>
        \<lparr>currentIndex = 1, direction = 1, dragStart = Some (200, 300), onSwipeCalls = [1],
           cardEl = restCard, rafQueue = []\<rparr>)) = 1 \<and>
   currentIndex (goToPrevious \<lparr>totalCards = 3, onSwipe = True\<rparr>
        \<lparr>currentIndex = 1, direction = 1, dragStart = Some (200, 300), onSwipeCalls = [1],
           cardEl = restCard, rafQueue = []\<rparr>) = 0"
  by (simp add: handleDragEnd_def runFrame_def goToPrevious_def callOnSwipe_def)

text \<open>
  The navigating callback steps from the index of the render in which the drag ended. On
  the second of five cards, a swipe to the left, then \<open>goToIndex 3\<close> before the frame:
  the frame calls the \<open>goToNext\<close> of the earlier render, which sets the index to \<open>2\<close>.
\<close>

lemma frame_callback_uses_render_index:
  "currentIndex (swipeRun \<lparr>totalCards = 5, onSwipe = True\<rparr>
     [DragEndEv True \<lparr>point_x = 100, point_y = 310, offset_x = - 100, offset_y = 10, velocity_x = 0\<rparr>,
      NavEv (GoToIndex 3), FrameEv]
     \<lparr>currentIndex = 1, direction = 1, dragStart = Some (200, 300), onSwipeCalls = [1],
        cardEl = restCard, rafQueue = []\<rparr>) = 2"
  by (simp add: handleDragEnd_def runFrame_def goToIndex_def goToNextOf_def callOnSwipe_def)

section \<open>Properties of the hot zones\<close>

lemma runTimeouts_effects: "effects (runTimeouts now s) = effects s"
  by (simp add: runTimeouts_def)

lemma runTimeouts_touchStartRef: "touchStartRef (runTimeouts now s) = touchStartRef s"
  by (simp add: runTimeouts_def)

lemma navHandle_idle:
  assumes "touchStartRef s = None" and "isMoveOrEnd (now, e)"
  shows "touchStartRef (navHandle e now (runTimeouts now s)) = None \<and>
         effects (navHandle e now (runTimeouts now s)) = effects s"
  using assms
  by (cases e)
     (simp_all add: handleTouchMove_def handleTouchEnd_def runTimeouts_effects
        runTimeouts_touchStartRef)

lemma navRun_idle:
  assumes "touchStartRef s = None" and "list_all isMoveOrEnd es"
  shows "effects (navRun es s) = effects s"
  using assms
proof (induction es arbitrary: s)
  case Nil
  then show ?case by simp
next
  case (Cons te es)
  obtain now e where te: "te = (now, e)"
    by (cases te)
  have step: "touchStartRef (navHandle e now (runTimeouts now s)) = None \<and>
              effects (navHandle e now (runTimeouts now s)) = effects s"
    using Cons.prems te by (intro navHandle_idle) simp_all
  have "effects (navRun es (navHandle e now (runTimeouts now s))) =
        effects (navHandle e now (runTimeouts now s))"
    using Cons.prems step by (intro Cons.IH) simp_all
  then show ?case using te step by simp
qed

text \<open>
  Claim C7. In an armed touch session a touch move with \<open>|dy| > 5\<close> and
  \<open>|dy| > |dx| * 0.5\<close> clears the session and leaves the zone inactive without calling
  \<open>preventDefault\<close>; whatever moves and touch ends of the contact follow, at whatever
  times, nothing is called any more: the bound action does not fire. The instance that
  follows is the move with \<open>dx = 10\<close>, \<open>dy = 50\<close>.
\<close>

theorem vertical_move_cancels:
  assumes "touchStartRef s = Some (sx, sy, st)"
    and "\<bar>snd touch - sy\<bar> > 5"
    and "\<bar>snd touch - sy\<bar> > \<bar>fst touch - sx\<bar> * 0.5"
    and "list_all isMoveOrEnd es"
  shows "touchStartRef (handleTouchMove touch s) = None \<and>
         isActive (handleTouchMove touch s) = False \<and>
         effects (handleTouchMove touch s) = effects s \<and>
         effects (navRun es (handleTouchMove touch s)) = effects s \<and>
         actions (navRun es (handleTouchMove touch s)) = actions s"
proof -
  have m: "handleTouchMove touch s = s\<lparr>isActive := False, touchStartRef := None\<rparr>"
    using assms(1-3) by (simp add: handleTouchMove_def)
  have r: "effects (navRun es (handleTouchMove touch s)) = effects (handleTouchMove touch s)"
    using assms(4) by (intro navRun_idle) (simp_all add: m)
  show ?thesis using r by (simp add: m actions_def)
qed

theorem vertical_move_cancels_witness:
  "touchStartRef (handleTouchStart False (100, 100) 0 navAreaInit) = Some (100, 100, 0) \<and>
   \<bar>snd (110 :: real, 150 :: real) - 100\<bar> > 5 \<and>
   \<bar>snd (110 :: real, 150 :: real) - 100\<bar> > \<bar>fst (110 :: real, 150 :: real) - 100\<bar> * 0.5 \<and>
   list_all isMoveOrEnd [(30, TouchMove (110, 160)), (40, TouchEnd False (110, 160))] \<and>
   touchStartRef (handleTouchMove (110, 150) (handleTouchStart False (100, 100) 0 navAreaInit)) = None \<and>
   effects (navRun [(30, TouchMove (110, 160)), (40, TouchEnd False (110, 160))]
     (handleTouchMove (110, 150) (handleTouchStart False (100, 100) 0 navAreaInit))) = []"
proof -
  let ?s = "handleTouchStart False (100, 100) 0 navAreaInit"
  let ?es = "[(30, TouchMove (110, 160)), (40, TouchEnd False (110, 160))]"
  have a: "touchStartRef ?s = Some (100, 100, 0)"
    by (simp add: handleTouchStart_def navAreaInit_def)
  have b: "\<bar>snd (110 :: real, 150 :: real) - 100\<bar> > 5"
    by simp
  have c: "\<bar>snd (110 :: real, 150 :: real) - 100\<bar> > \<bar>fst (110 :: real, 150 :: real) - 100\<bar> * 0.5"
    by simp
  have d: "list_all isMoveOrEnd ?es"
    by simp
  note inst = vertical_move_cancels [OF a b c d]
  have e: "touchStartRef (handleTouchMove (110, 150) ?s) = None"
    using inst by (rule conjunct1)
  have "effects (navRun ?es (handleTouchMove (110, 150) ?s)) = effects ?s"
    using inst by (elim conjE)
  then have f: "effects (navRun ?es (handleTouchMove (110, 150) ?s)) = []"
    by (simp add: handleTouchStart_def navAreaInit_def)
  show ?thesis using a b c d e f by (intro conjI)
qed

text \<open>
  A tap on an enabled zone with no timer pending calls the bound action once at the touch
  end, and a click less than 300 ms after the touch end calls it no second time.
\<close>

lemma tap_then_click_fires_once:
  assumes "timeouts s = []"
    and "\<bar>x1 - x0\<bar> < 10" and "\<bar>y1 - y0\<bar> < 10" and "t1 - t0 < 300"
    and "t2 < t1 + 300"
  shows "actions (navRun [(t0, TouchStart False (x0, y0)), (t1, TouchEnd False (x1, y1)),
                          (t2, Click False)] s) = actions s + 1"
  using assms
  by (simp add: runTimeouts_def handleTouchStart_def handleTouchEnd_def handleClick_def
        actions_def Let_def)

text \<open>
  Claim C6. The guard against the click that follows a touch is reset by a timer that a
  later contact does not cancel. Two taps on an enabled zone, 200 ms apart, each
  followed by its click: the first click, 10 ms after its touch end, is ignored; the
  timer of the first touch end runs at 350 ms and clears the flag the second touch end
  set at 250 ms, so the second click, 150 ms after its touch end, calls the bound action
  again. Two contacts invoke the action three times.
\<close>

theorem stale_timeout_double_fire:
  "actions (navRun [(0, TouchStart False (100, 100)), (50, TouchEnd False (102, 102)),
                    (60, Click False),
                    (200, TouchStart False (100, 100)), (250, TouchEnd False (102, 102))]
                   navAreaInit) = 2 \<and>
   actions (navRun [(0, TouchStart False (100, 100)), (50, TouchEnd False (102, 102)),
                    (60, Click False),
                    (200, TouchStart False (100, 100)), (250, TouchEnd False (102, 102)),
                    (400, Click False)]
                   navAreaInit) = 3"
  by (simp add: runTimeouts_def handleTouchStart_def handleTouchEnd_def handleClick_def
        actions_def navAreaInit_def)

end
